theory Spec2Isabelle
  imports Main
begin

section \<open>Strings of the source language\<close>

text \<open>
  A Python \<open>str\<close> is modelled as a \<open>string\<close>; every \<open>char\<close> stands for the Unicode
  code point with the same number (0 to 255). The built-in string methods used by
  \<open>generate_frams_pyi_from_framscript_pydantic_xml.py\<close> are written out for that range.
\<close>

definition code_point :: "char \<Rightarrow> nat" where
  "code_point c = of_char c"

text \<open>\<open>str.isspace\<close> per character, which is what \<open>str.strip()\<close> removes.\<close>

definition isspace :: "char \<Rightarrow> bool" where
  "isspace c = (let n = code_point c in
     (9 \<le> n \<and> n \<le> 13) \<or> (28 \<le> n \<and> n \<le> 32) \<or> n = 133 \<or> n = 160)"

text \<open>The line boundaries of \<open>str.splitlines()\<close>.\<close>

definition is_linebreak :: "char \<Rightarrow> bool" where
  "is_linebreak c = (let n = code_point c in
     (10 \<le> n \<and> n \<le> 13) \<or> (28 \<le> n \<and> n \<le> 30) \<or> n = 133)"

text \<open>\<open>str.isdigit\<close> per character (the ASCII digits and the superscripts 1, 2, 3).\<close>

definition isdigit :: "char \<Rightarrow> bool" where
  "isdigit c = (let n = code_point c in
     (48 \<le> n \<and> n \<le> 57) \<or> n = 178 \<or> n = 179 \<or> n = 185)"

definition lower_char :: "char \<Rightarrow> char" where
  "lower_char c = (let n = code_point c in
     if (65 \<le> n \<and> n \<le> 90) \<or> (192 \<le> n \<and> n \<le> 222 \<and> n \<noteq> 215)
     then char_of (n + 32) else c)"

definition lower :: "string \<Rightarrow> string" where
  "lower s = map lower_char s"

definition strip :: "string \<Rightarrow> string" where
  "strip s = rev (dropWhile isspace (rev (dropWhile isspace s)))"

text \<open>
  \<open>splitlines_from cur s\<close>: the lines of \<open>cur + s\<close> when \<open>cur\<close> holds no line boundary.
  A carriage return followed by a line feed is one boundary, and a boundary at the very
  end opens no further line.
\<close>

fun splitlines_from :: "string \<Rightarrow> string \<Rightarrow> string list" where
  "splitlines_from cur [] = (if cur = [] then [] else [cur])"
| "splitlines_from cur [c] = (if is_linebreak c then [cur] else [cur @ [c]])"
| "splitlines_from cur (c # d # cs) =
     (if c = CHR 0x0D \<and> d = CHR 0x0A then cur # splitlines_from [] cs
      else if is_linebreak c then cur # splitlines_from [] (d # cs)
      else splitlines_from (cur @ [c]) (d # cs))"

definition splitlines :: "string \<Rightarrow> string list" where
  "splitlines s = splitlines_from [] s"

text \<open>\<open>sep.join(xs)\<close>.\<close>

fun join :: "string \<Rightarrow> string list \<Rightarrow> string" where
  "join sep [] = []"
| "join sep [x] = x"
| "join sep (x # y # ys) = x @ sep @ join sep (y # ys)"

text \<open>\<open>s.replace(' ', '_')\<close>.\<close>

definition replace_space :: "string \<Rightarrow> string" where
  "replace_space s = map (\<lambda>c. if c = CHR '' '' then CHR ''_'' else c) s"

text \<open>\<open>' ' * indent\<close>.\<close>

definition spaces :: "nat \<Rightarrow> string" where
  "spaces n = replicate n (CHR '' '')"

subsection \<open>\<open>repr\<close> of a string\<close>

definition hex_digit :: "nat \<Rightarrow> char" where
  "hex_digit n = (if n < 10 then char_of (48 + n) else char_of (87 + n))"

definition isprintable :: "char \<Rightarrow> bool" where
  "isprintable c = (let n = code_point c in
     (32 \<le> n \<and> n < 127) \<or> (161 \<le> n \<and> n \<noteq> 173))"

definition repr_char :: "char \<Rightarrow> char \<Rightarrow> string" where
  "repr_char quote c =
     (if c = quote \<or> c = CHR 0x5C then [CHR 0x5C, c]
      else if c = CHR 0x09 then [CHR 0x5C, CHR ''t'']
      else if c = CHR 0x0A then [CHR 0x5C, CHR ''n'']
      else if c = CHR 0x0D then [CHR 0x5C, CHR ''r'']
      else if isprintable c then [c]
      else [CHR 0x5C, CHR ''x'', hex_digit (code_point c div 16), hex_digit (code_point c mod 16)])"

definition repr :: "string \<Rightarrow> string" where
  "repr s =
     (let quote = (if CHR 0x27 \<in> set s \<and> CHR 0x22 \<notin> set s then CHR 0x22 else CHR 0x27)
      in [quote] @ concat (map (repr_char quote) s) @ [quote])"

text \<open>
  An \<open>Optional[str]\<close> is a \<open>string option\<close>. \<open>repr_opt\<close> is \<open>repr\<close> on such a value
  (\<open>f"{x!r}"\<close>), \<open>str_opt\<close> is its plain formatting (\<open>f"{x}"\<close>), and \<open>truthy\<close> is
  \<open>bool(x)\<close>.
\<close>

definition repr_opt :: "string option \<Rightarrow> string" where
  "repr_opt x = (case x of None \<Rightarrow> ''None'' | Some s \<Rightarrow> repr s)"

definition str_opt :: "string option \<Rightarrow> string" where
  "str_opt x = (case x of None \<Rightarrow> ''None'' | Some s \<Rightarrow> s)"

definition truthy :: "string option \<Rightarrow> bool" where
  "truthy x = (case x of None \<Rightarrow> False | Some s \<Rightarrow> s \<noteq> [])"

section \<open>Module constants\<close>

definition INVALID_PY_IDENTS :: "string list" where
  "INVALID_PY_IDENTS = [''import'', ''class'', ''def'', ''as'']"

definition GLOBAL_CONTEXT :: string where
  "GLOBAL_CONTEXT = ''Global context''"

definition MAP_TO_SIMPLE_PY_TYPE :: "(string \<times> string) list" where
  "MAP_TO_SIMPLE_PY_TYPE =
     [(''string'', ''str''), (''float'', ''float''), (''integer'', ''int''),
      (''void'', ''None''), (''untyped'', ''Any'')]"

text \<open>\<open>MAP_TO_SIMPLE_PY_TYPE.get(k)\<close>; the key may be \<open>None\<close>, which is in no entry.\<close>

definition MAP_TO_SIMPLE_PY_TYPE_get :: "string option \<Rightarrow> string option" where
  "MAP_TO_SIMPLE_PY_TYPE_get k =
     (case k of None \<Rightarrow> None | Some s \<Rightarrow> map_of MAP_TO_SIMPLE_PY_TYPE s)"

section \<open>Docstring formatter and type mapper\<close>

definition triple_quote :: string where
  "triple_quote = [CHR 0x22, CHR 0x22, CHR 0x22]"

definition format_description_as_docstring :: "string \<Rightarrow> nat \<Rightarrow> string" where
  "format_description_as_docstring desc indent =
     (let desc_lines = splitlines (strip desc) in
      if length desc_lines = 0 then []
      else if length desc_lines = 1 \<and> CHR 0x5C \<notin> set desc
        then spaces indent @ repr (desc_lines ! 0)
      else
        let ret = [spaces indent @
                     (if CHR 0x5C \<in> set desc then CHR ''r'' # triple_quote else triple_quote)];
            ret = ret @ map (\<lambda>ln. spaces indent @ ln) desc_lines;
            ret = ret @ [spaces indent @ triple_quote]
        in join [CHR 0x0A] ret)"

text \<open>
  The type mapper returns a pair: the type expression and a comment. For a name outside
  \<open>int\<close>, \<open>float\<close>, \<open>str\<close>, \<open>None\<close> the comment is the argument itself, which is \<open>None\<close>
  when the caller passes the absent \<open>type\<close> of a field.
\<close>

definition format_as_python_type_extvalue :: "string option \<Rightarrow> string \<times> string option" where
  "format_as_python_type_extvalue el_type =
     (let maybe_py_type = MAP_TO_SIMPLE_PY_TYPE_get el_type in
      if maybe_py_type \<in> {Some ''int'', Some ''float'', Some ''str'', Some ''None''}
      then (''ExtValue['' @ str_opt maybe_py_type @ '']'', Some [])
      else (''ExtValue'', el_type))"

section \<open>Schema model\<close>

text \<open>
  The classes \<open>Argument\<close>, \<open>Element\<close>, \<open>Type\<close> and \<open>FramscriptDoc\<close>. Field names carry
  the class as a prefix. The \<open>arguments\<close> field of an element is the list held by the
  \<open>Arguments\<close> object, or \<open>None\<close> when there is no such object.
\<close>

record Argument =
  arg_name :: "string option"
  arg_type :: "string option"
  arg_description :: "string option"

record Element =
  el_id :: string
  el_name :: "string option"
  el_type :: "string option"
  el_function :: "string option"
  el_deprecated :: "string option"
  el_default :: "string option"
  el_min :: "string option"
  el_max :: "string option"
  el_flags :: "string option"
  el_description :: "string option"
  el_arguments :: "Argument list option"

record Type =
  ty_name :: string
  ty_context :: string
  ty_description :: "string option"
  ty_elements :: "Element list"

record FramscriptDoc =
  types :: "Type list"

definition is_function :: "Element \<Rightarrow> bool" where
  "is_function el = (el_function el = Some ''true'')"

definition is_deprecated :: "Element \<Rightarrow> bool" where
  "is_deprecated el = (el_deprecated el = Some ''true'')"

definition get_arguments :: "Element \<Rightarrow> Argument list" where
  "get_arguments el = (case el_arguments el of Some args \<Rightarrow> args | None \<Rightarrow> [])"

section \<open>Stub emitter\<close>

text \<open>
  Exceptions raised inside \<open>main_write_framscript_part_of_the_stub\<close>: the \<open>assert\<close> on an
  argument's description, \<open>desc.strip()\<close> on a description that is \<open>None\<close>, and the read
  of the local \<open>ret_type_comment\<close> before any assignment to it.
\<close>

datatype py_error = AssertionError | AttributeError | UnboundLocalError

text \<open>
  Standard output is the list of the strings printed so far, one entry for each call of
  \<open>print\<close>; \<open>render\<close> gives the text, where every call ends its string with a newline.
\<close>

definition print :: "string \<Rightarrow> string list \<Rightarrow> string list" where
  "print s out = out @ [s]"

definition render :: "string list \<Rightarrow> string" where
  "render out = concat (map (\<lambda>s. s @ [CHR 0x0A]) out)"

subsection \<open>Duplicate element ids\<close>

text \<open>\<open>collections.Counter\<close> over a sequence, as the list of its items in insertion order.\<close>

fun counter_add :: "(string \<times> nat) list \<Rightarrow> string \<Rightarrow> (string \<times> nat) list" where
  "counter_add [] k = [(k, 1)]"
| "counter_add ((k', v) # kvs) k =
     (if k' = k then (k', v + 1) # kvs else (k', v) # counter_add kvs k)"

definition Counter :: "string list \<Rightarrow> (string \<times> nat) list" where
  "Counter xs = foldl counter_add [] xs"

definition duplicate_elements :: "Element list \<Rightarrow> string set" where
  "duplicate_elements elements =
     (let detecting_duplicate_elements = Counter (map el_id elements)
      in set (map fst (filter (\<lambda>(k, v). v > 1) detecting_duplicate_elements)))"

subsection \<open>Arguments of a function element\<close>

text \<open>
  Lines 401 to 405: the name of one argument, given the set \<open>arg_name_repeats\<close>; the
  local \<open>arg_name\<close> of the source is \<open>name\<close> here. The name is never empty when its
  first character is read, because an empty name is falsy and has been replaced by the
  underscore.
\<close>

definition legal_arg_name :: "Argument \<Rightarrow> string set \<Rightarrow> string" where
  "legal_arg_name arg arg_name_repeats =
     (let name = (if truthy (arg_name arg) then str_opt (arg_name arg) else ''_'');
          name = (case name of c # _ \<Rightarrow> if isdigit c then ''a_'' @ name else name
                  | [] \<Rightarrow> name);
          name = (if name \<in> arg_name_repeats then name @ ''_2'' else name)
      in name)"

text \<open>
  The loop over \<open>func_args\<close>, with the list \<open>args\<close> and the set \<open>arg_name_repeats\<close> as
  its state. It stops at the first argument whose description is truthy.
\<close>

fun args_loop ::
  "Argument list \<Rightarrow> string list \<Rightarrow> string set \<Rightarrow> py_error + (string list \<times> string set)" where
  "args_loop [] args arg_name_repeats = Inr (args, arg_name_repeats)"
| "args_loop (arg # func_args) args arg_name_repeats =
     (if truthy (arg_description arg) then Inl AssertionError
      else
        let name = legal_arg_name arg arg_name_repeats;
            arg_type_py = MAP_TO_SIMPLE_PY_TYPE_get (arg_type arg);
            args = args @ [replace_space name @ '': '' @
                     (case arg_type_py of Some t \<Rightarrow> t | None \<Rightarrow> repr_opt (arg_type arg))];
            arg_name_repeats = insert name arg_name_repeats
        in args_loop func_args args arg_name_repeats)"

subsection \<open>Elements\<close>

definition element_id_py :: "Element \<Rightarrow> string" where
  "element_id_py el = (if el_id el \<in> set INVALID_PY_IDENTS then el_id el @ ''_'' else el_id el)"

definition element_descr :: "Element \<Rightarrow> string" where
  "element_descr el =
     (let descr = (if truthy (el_description el) then str_opt (el_description el) else [])
      in case el_name el of
           None \<Rightarrow> descr
         | Some name \<Rightarrow>
             if lower name \<noteq> lower (el_id el) \<and> lower name \<noteq> lower (el_id el) @ '' object''
             then name @ [CHR 0x0A, CHR 0x0A] @ descr
             else descr)"

text \<open>
  The state of the emitter: what has been printed, and the local variable
  \<open>ret_type_comment\<close>, which is \<open>None\<close> while unbound. It is assigned only for a function
  element with a \<open>type\<close> and keeps its value through later iterations of both loops.
\<close>

type_synonym emit_state = "string list \<times> string option option"

fun emit_function :: "string set \<Rightarrow> Element \<Rightarrow> emit_state \<Rightarrow> emit_state \<times> py_error option" where
  "emit_function duplicates el (out, ret_type_comment) =
     (case args_loop (get_arguments el) [] {} of
        Inl e \<Rightarrow> ((out, ret_type_comment), Some e)
      | Inr (args, _) \<Rightarrow>
          let args = join '', '' args;
              (ret_type, ret_type_comment) =
                (case el_type el of
                   None \<Rightarrow> ([], ret_type_comment)
                 | Some t \<Rightarrow>
                     let (ret_type, comment) = format_as_python_type_extvalue (Some t);
                         ret_type = '' -> '' @ ret_type;
                         comment = (if truthy comment
                                    then Some (''  # returns '' @ str_opt comment) else comment)
                     in (ret_type, Some comment));
              out = (if is_deprecated el then print ''    @deprecated'' out else out);
              out = (if el_id el \<in> duplicates then print ''    @overload'' out else out);
              out = print ''    @staticmethod'' out
          in (case ret_type_comment of
                None \<Rightarrow> ((out, ret_type_comment), Some UnboundLocalError)
              | Some comment \<Rightarrow>
                  let out = print (''    def '' @ element_id_py el @ ''('' @ args @ '')'' @ ret_type
                                     @ '':'' @ str_opt comment) out;
                      out = print (format_description_as_docstring (element_descr el) 8) out;
                      out = print ''        ...'' out;
                      out = print [] out
                  in ((out, ret_type_comment), None)))"

fun emit_field :: "Element \<Rightarrow> emit_state \<Rightarrow> emit_state \<times> py_error option" where
  "emit_field el (out, ret_type_comment) =
     (let (el_type_py, el_type_comment) = format_as_python_type_extvalue (el_type el);
          el_type_comment = (if truthy el_type_comment
                             then ''  # '' @ str_opt el_type_comment else []);
          out = print (''    '' @ element_id_py el @ '': '' @ el_type_py @ el_type_comment) out;
          out = (if element_descr el \<noteq> []
                 then print (format_description_as_docstring (element_descr el) 4) out else out)
      in ((out, ret_type_comment), None))"

definition emit_element :: "string set \<Rightarrow> Element \<Rightarrow> emit_state \<Rightarrow> emit_state \<times> py_error option" where
  "emit_element duplicates el st =
     (if is_function el then emit_function duplicates el st else emit_field el st)"

fun emit_elements ::
  "string set \<Rightarrow> Element list \<Rightarrow> emit_state \<Rightarrow> emit_state \<times> py_error option" where
  "emit_elements duplicates [] st = (st, None)"
| "emit_elements duplicates (el # els) st =
     (case emit_element duplicates el st of
        (st', Some e) \<Rightarrow> (st', Some e)
      | (st', None) \<Rightarrow> emit_elements duplicates els st')"

subsection \<open>Types and the whole document\<close>

fun emit_types :: "Type list \<Rightarrow> emit_state \<Rightarrow> emit_state \<times> py_error option" where
  "emit_types [] st = (st, None)"
| "emit_types (each_type # rest) (out, ret_type_comment) =
     (if ty_context each_type \<notin> {GLOBAL_CONTEXT, ''Global context''}
      then emit_types rest (out, ret_type_comment)
      else
        let out = print (''class '' @ ty_name each_type @ ''(ExtValue):'') out;
            out = (if ty_description each_type = None
                   then print (''    '' @ [CHR 0x22] @ ''(missing docstring?)'' @ [CHR 0x22]) out
                   else out)
        in case ty_description each_type of
             None \<Rightarrow> ((out, ret_type_comment), Some AttributeError)
           | Some description \<Rightarrow>
               let out = print (format_description_as_docstring description 4) out;
                   out = print [] out;
                   duplicate_elements = duplicate_elements (ty_elements each_type)
               in (case emit_elements duplicate_elements (ty_elements each_type)
                          (out, ret_type_comment) of
                     (st', Some e) \<Rightarrow> (st', Some e)
                   | ((out, ret_type_comment), None) \<Rightarrow>
                       emit_types rest (print [] out, ret_type_comment)))"

definition header_lines :: "string list" where
  "header_lines =
     [''from warnings import deprecated'',
      ''from typing import Any, overload'',
      ''from typing import Any as Object'' @ [CHR 0x0A, CHR 0x0A],
      ''class ExtValue: ...'' @ [CHR 0x0A, CHR 0x0A]]"

text \<open>
  The function is entered with the output written so far; its locals start unbound. The
  result is the output, and the exception that ended the call, if any.
\<close>

definition main_write_framscript_part_of_the_stub ::
  "FramscriptDoc \<Rightarrow> string list \<Rightarrow> string list \<times> py_error option" where
  "main_write_framscript_part_of_the_stub doc out =
     (let out = print (header_lines ! 0) out;
          out = print (header_lines ! 1) out;
          out = print (header_lines ! 2) out;
          out = print (header_lines ! 3) out
      in case emit_types (types doc) (out, None) of
           ((out, _), err) \<Rightarrow> (out, err))"

section \<open>The script's entry point\<close>

text \<open>
  What the \<open>__main__\<close> block meets outside this file is a parameter: the outcome of
  \<open>parse_framscript_xml\<close> (the document, a \<open>pydantic_core.ValidationError\<close> with its
  list of error records, or another exception with the text of its class and its
  message), the outcome of the two \<open>ruff\<close> subprocesses, the text \<open>print\<close> gives for an
  error record, and the message of an exception raised by the emitter.
\<close>

record error_details =
  err_type :: string
  err_loc :: "string list"
  err_msg :: string

datatype load_result =
    Loaded FramscriptDoc
  | ValidationError "error_details list"
  | OtherException string string

datatype ruff_outcome =
    RuffNotFound
  | RuffVersionFailed string
  | RuffFormatted string
  | RuffFormatFailed string
  | RuffFormatException string

record environment =
  load :: load_result
  ruff :: ruff_outcome
  show_error :: "error_details \<Rightarrow> string"
  exc_message :: "py_error \<Rightarrow> string"

text \<open>
  A stream holds one entry per write: a printed string, or the traceback written by
  \<open>traceback.print_exc()\<close>.
\<close>

datatype entry = Text string | Traceback

record process =
  stdout :: "entry list"
  stderr :: "entry list"
  exit_code :: int

text \<open>
  \<open>format_code_with_ruff\<close> returns the code to print and writes its messages. An
  exception of the version probe other than the two that the function catches is not
  among the outcomes.
\<close>

definition format_code_with_ruff :: "ruff_outcome \<Rightarrow> string \<Rightarrow> process \<Rightarrow> string \<times> process" where
  "format_code_with_ruff r code p =
     (case r of
        RuffNotFound \<Rightarrow>
          (code, p\<lparr>stdout := stdout p @ [Text ''Ruff is not available. Returning the original code.'']\<rparr>)
      | RuffVersionFailed e \<Rightarrow>
          (code, p\<lparr>stdout := stdout p @ [Text (''Error checking Ruff availability: '' @ e)]\<rparr>)
      | RuffFormatted formatted \<Rightarrow> (formatted, p)
      | RuffFormatFailed err \<Rightarrow>
          (code, p\<lparr>stderr := stderr p @ [Text (''Ruff formatting failed: '' @ err)]\<rparr>)
      | RuffFormatException e \<Rightarrow>
          (code, p\<lparr>stdout := stdout p @ [Text (''An error occurred while formatting with Ruff: '' @ e)]\<rparr>))"

definition class_repr :: "py_error \<Rightarrow> string" where
  "class_repr e =
     ''<class '' @ [CHR 0x27] @
       (case e of AssertionError \<Rightarrow> ''AssertionError'' | AttributeError \<Rightarrow> ''AttributeError''
        | UnboundLocalError \<Rightarrow> ''UnboundLocalError'') @ [CHR 0x27] @ ''>''"

text \<open>
  The handler of \<open>except Exception\<close>. Like the handler of the validation error it
  returns, so the script runs to its end and the interpreter leaves with status 0.
\<close>

definition handle_exception :: "string \<Rightarrow> string \<Rightarrow> process \<Rightarrow> process" where
  "handle_exception cls msg p =
     p\<lparr>stdout := stdout p @ [Text cls, Text (''Error: '' @ msg)],
       stderr := stderr p @ [Traceback]\<rparr>"

definition main_block :: "environment \<Rightarrow> process" where
  "main_block env =
     (let p = \<lparr>stdout = [], stderr = [], exit_code = 0\<rparr> in
      case load env of
        Loaded doc \<Rightarrow>
          (case main_write_framscript_part_of_the_stub doc [] of
             (buf, Some e) \<Rightarrow> handle_exception (class_repr e) (exc_message env e) p
           | (buf, None) \<Rightarrow>
               let (buf_fmt, p) = format_code_with_ruff (ruff env) (render buf) p
               in p\<lparr>stdout := stdout p @ [Text buf_fmt]\<rparr>)
      | ValidationError errors \<Rightarrow>
          (let p = p\<lparr>stderr := stderr p @ [Traceback]\<rparr>;
               p = p\<lparr>stdout := stdout p @ [Text (''----'' @ [CHR 0x0A, CHR 0x0A, CHR 0x0A])]\<rparr>
           in p\<lparr>stdout := stdout p @ map (\<lambda>err. Text (show_error env err)) errors\<rparr>)
      | OtherException cls msg \<Rightarrow> handle_exception cls msg p)"

section \<open>Notions used in the statements\<close>

text \<open>
  The pieces of what a function element prints, named after the locals of the source:
  the text of the return type, the value of \<open>ret_type_comment\<close> after the element, the
  signature line, and the decorator lines before it.
\<close>

definition ret_type_of :: "Element \<Rightarrow> string" where
  "ret_type_of el =
     (case el_type el of None \<Rightarrow> []
      | Some t \<Rightarrow> '' -> '' @ fst (format_as_python_type_extvalue (Some t)))"

definition ret_type_comment_after :: "Element \<Rightarrow> string option option \<Rightarrow> string option option" where
  "ret_type_comment_after el ret_type_comment =
     (case el_type el of None \<Rightarrow> ret_type_comment
      | Some t \<Rightarrow>
          let comment = snd (format_as_python_type_extvalue (Some t))
          in Some (if truthy comment then Some (''  # returns '' @ str_opt comment) else comment))"

definition signature_line :: "Element \<Rightarrow> string list \<Rightarrow> string option \<Rightarrow> string" where
  "signature_line el args comment =
     ''    def '' @ element_id_py el @ ''('' @ join '', '' args @ '')'' @ ret_type_of el
       @ '':'' @ str_opt comment"

definition marker_lines :: "string set \<Rightarrow> Element \<Rightarrow> string list" where
  "marker_lines duplicates el =
     (if is_deprecated el then [''    @deprecated''] else [])
     @ (if el_id el \<in> duplicates then [''    @overload''] else [])
     @ [''    @staticmethod'']"

text \<open>
  A segment is what one element, or one type, adds to the output when it is emitted
  without an exception. The segment of a type is its class line, its docstring, an empty
  line, the segments of its elements in the order of the list, and an empty line.
\<close>

definition is_global :: "Type \<Rightarrow> bool" where
  "is_global t = (ty_context t = ''Global context'')"

definition class_line :: "Type \<Rightarrow> string" where
  "class_line t = ''class '' @ ty_name t @ ''(ExtValue):''"

definition element_segment :: "string set \<Rightarrow> Element \<Rightarrow> string list \<Rightarrow> bool" where
  "element_segment duplicates el seg =
     (\<exists>r r'. emit_element duplicates el ([], r) = ((seg, r'), None))"

definition type_segment :: "Type \<Rightarrow> string list \<Rightarrow> bool" where
  "type_segment t seg =
     (\<exists>d segs. ty_description t = Some d
        \<and> list_all2 (element_segment (duplicate_elements (ty_elements t))) (ty_elements t) segs
        \<and> seg = [class_line t, format_description_as_docstring d 4, []] @ concat segs @ [[]])"

text \<open>The notice printed for a type whose description is \<open>None\<close>.\<close>

definition missing_docstring_line :: string where
  "missing_docstring_line = ''    '' @ [CHR 0x22] @ ''(missing docstring?)'' @ [CHR 0x22]"

text \<open>
  The segment of a type, read for the overload marker: the segment of its \<open>i\<close>-th element
  holds the marker exactly when that element is a function and another element of the
  same type has the same id.
\<close>

definition overload_marked_segment :: "Type \<Rightarrow> string list \<Rightarrow> bool" where
  "overload_marked_segment t seg =
     (\<exists>d elsegs. ty_description t = Some d
        \<and> seg = [class_line t, format_description_as_docstring d 4, []] @ concat elsegs @ [[]]
        \<and> length elsegs = length (ty_elements t)
        \<and> (\<forall>i<length (ty_elements t).
              element_segment (duplicate_elements (ty_elements t)) (ty_elements t ! i) (elsegs ! i)
            \<and> ((''    @overload'' \<in> set (elsegs ! i)) =
                 (is_function (ty_elements t ! i)
                  \<and> (\<exists>j<length (ty_elements t). j \<noteq> i
                        \<and> el_id (ty_elements t ! j) = el_id (ty_elements t ! i))))))"

text \<open>
  The name of an argument before the check against the names already seen: the
  underscore for a missing or empty name, and the prefix for a leading digit. The text of
  its type is the entry of the table, or the \<open>repr\<close> of the type when there is no entry.
\<close>

definition arg_base_name :: "Argument \<Rightarrow> string" where
  "arg_base_name arg =
     (let name = (if truthy (arg_name arg) then str_opt (arg_name arg) else ''_'')
      in case name of c # _ \<Rightarrow> if isdigit c then ''a_'' @ name else name
         | [] \<Rightarrow> name)"

definition arg_type_text :: "Argument \<Rightarrow> string" where
  "arg_type_text arg =
     (case MAP_TO_SIMPLE_PY_TYPE_get (arg_type arg) of
        Some t \<Rightarrow> t | None \<Rightarrow> repr_opt (arg_type arg))"

section \<open>Example documents\<close>

text \<open>An element with the defaults of the model for the attributes not given.\<close>

definition mk_element ::
  "string \<Rightarrow> string option \<Rightarrow> bool \<Rightarrow> string option \<Rightarrow> Argument list option \<Rightarrow> Element" where
  "mk_element i t f d args =
     \<lparr>el_id = i, el_name = None, el_type = t,
      el_function = Some (if f then ''true'' else ''false''), el_deprecated = Some ''false'',
      el_default = None, el_min = None, el_max = None, el_flags = None,
      el_description = d, el_arguments = args\<rparr>"

text \<open>
  A document with two global types and a type of another context between them. The
  first type has two functions of the same id and a field.
\<close>

definition world_type :: Type where
  "world_type =
     \<lparr>ty_name = ''World'', ty_context = ''Global context'', ty_description = Some ''The world'',
      ty_elements =
        [mk_element ''move'' (Some ''void'') True (Some ''Moves'') None,
         mk_element ''move'' (Some ''Vector'') True (Some [])
           (Some [\<lparr>arg_name = Some ''x'', arg_type = Some ''float'', arg_description = Some []\<rparr>]),
         mk_element ''size'' (Some ''integer'') False (Some ''Size'') None]\<rparr>"

definition expdef_type :: Type where
  "expdef_type =
     \<lparr>ty_name = ''Fields'', ty_context = ''expdef file'', ty_description = Some ''Fields'',
      ty_elements = [mk_element ''size'' (Some ''integer'') False (Some []) None]\<rparr>"

definition empty_type :: Type where
  "empty_type =
     \<lparr>ty_name = ''Empty'', ty_context = ''Global context'', ty_description = Some [],
      ty_elements = []\<rparr>"

definition example_doc :: FramscriptDoc where
  "example_doc = \<lparr>types = [world_type, expdef_type, empty_type]\<rparr>"

text \<open>
  A function without a \<open>type\<close> followed by a function whose argument has a
  description.
\<close>

definition unbound_doc :: FramscriptDoc where
  "unbound_doc =
     \<lparr>types =
        [\<lparr>ty_name = ''Body'', ty_context = ''Global context'', ty_description = Some [],
          ty_elements =
            [mk_element ''stop'' None True (Some []) None,
             mk_element ''move'' (Some ''void'') True (Some [])
               (Some [\<lparr>arg_name = Some ''x'', arg_type = Some ''float'',
                       arg_description = Some ''distance''\<rparr>])]\<rparr>]\<rparr>"

text \<open>Two fields with the same id.\<close>

definition box_doc :: FramscriptDoc where
  "box_doc =
     \<lparr>types =
        [\<lparr>ty_name = ''Box'', ty_context = ''Global context'', ty_description = Some [],
          ty_elements =
            [mk_element ''size'' (Some ''integer'') False (Some []) None,
             mk_element ''size'' (Some ''float'') False (Some []) None]\<rparr>]\<rparr>"

text \<open>An argument without a name, and one whose name starts with a digit.\<close>

definition unnamed_arg :: Argument where
  "unnamed_arg = \<lparr>arg_name = None, arg_type = Some ''string'', arg_description = Some []\<rparr>"

definition digit_arg :: Argument where
  "digit_arg = \<lparr>arg_name = Some ''2 x'', arg_type = Some ''Vector'', arg_description = None\<rparr>"

section \<open>Properties of the docstring formatter\<close>

lemma splitlines_from_Nil_iff: "splitlines_from cur s = [] \<longleftrightarrow> cur = [] \<and> s = []"
  by (induction cur s rule: splitlines_from.induct) auto

lemma is_linebreak_CR_LF: "is_linebreak (CHR 0x0D)" "is_linebreak (CHR 0x0A)"
  by (simp_all add: is_linebreak_def code_point_def)

lemma splitlines_from_one_line:
  "\<forall>c\<in>set s. \<not> is_linebreak c \<Longrightarrow>
   splitlines_from cur s = (if cur @ s = [] then [] else [cur @ s])"
proof (induction cur s rule: splitlines_from.induct)
  case (1 cur)
  show ?case by simp
next
  case (2 cur c)
  then show ?case by simp
next
  case (3 cur c d cs)
  from "3.prems" have nl: "\<not> is_linebreak c" by simp
  then have ncr: "\<not> (c = CHR 0x0D \<and> d = CHR 0x0A)" using is_linebreak_CR_LF(1) by blast
  from "3.prems" have rest: "\<forall>c\<in>set (d # cs). \<not> is_linebreak c" by simp
  have "splitlines_from cur (c # d # cs) = splitlines_from (cur @ [c]) (d # cs)"
    using nl ncr by auto
  also have "\<dots> = [(cur @ [c]) @ d # cs]"
    using "3.IH"(3) [OF ncr nl rest] by simp
  finally show ?case by simp
qed

lemma splitlines_from_several:
  "length (splitlines_from cur s) \<le> 1 \<Longrightarrow> s \<noteq> [] \<Longrightarrow> \<not> is_linebreak (last s) \<Longrightarrow>
   \<forall>c\<in>set s. \<not> is_linebreak c"
proof (induction cur s rule: splitlines_from.induct)
  case (1 cur)
  then show ?case by simp
next
  case (2 cur c)
  then show ?case by simp
next
  case (3 cur c d cs)
  note len = "3.prems"(1) and lst = "3.prems"(3)
  show ?case
  proof (cases "c = CHR 0x0D \<and> d = CHR 0x0A")
    case True
    then have "splitlines_from cur (c # d # cs) = cur # splitlines_from [] cs" by simp
    with len have "splitlines_from [] cs = []" by simp
    then have "cs = []" by (simp only: splitlines_from_Nil_iff)
    with True lst show ?thesis by (simp add: is_linebreak_CR_LF)
  next
    case False
    then have eq: "splitlines_from cur (c # d # cs) =
      (if is_linebreak c then cur # splitlines_from [] (d # cs)
       else splitlines_from (cur @ [c]) (d # cs))" by auto
    show ?thesis
    proof (cases "is_linebreak c")
      case True
      with len have "splitlines_from [] (d # cs) = []" unfolding eq by simp
      then have "d # cs = []" by (simp only: splitlines_from_Nil_iff)
      then show ?thesis by simp
    next
      case nl: False
      with len have "length (splitlines_from (cur @ [c]) (d # cs)) \<le> 1" unfolding eq by simp
      moreover have "d # cs \<noteq> []" by simp
      moreover from lst have "\<not> is_linebreak (last (d # cs))" by simp
      ultimately have "\<forall>c\<in>set (d # cs). \<not> is_linebreak c"
        by (rule "3.IH"(3) [OF False nl])
      with nl show ?thesis by simp
    qed
  qed
qed

lemma is_linebreak_isspace: "is_linebreak c \<Longrightarrow> isspace c"
  by (auto simp: is_linebreak_def isspace_def Let_def)

lemma strip_last: "strip s \<noteq> [] \<Longrightarrow> \<not> isspace (last (strip s))"
  unfolding strip_def by (simp add: last_rev hd_dropWhile)


text \<open>
  Claim C5. With \<open>text\<close> the description after \<open>strip\<close>: the result is empty when
  \<open>text\<close> is empty; it is the indentation followed by \<open>repr text\<close>, one quoted line,
  when \<open>text\<close> holds no line boundary and the description no backslash; otherwise it
  is the block of the opening delimiter, every line of \<open>text\<close> and the closing
  delimiter, each indented and on a line of its own, where the opening delimiter is the
  raw one exactly when the description holds a backslash.
\<close>

theorem docstring_formatter_cases:
  "format_description_as_docstring desc indent =
     (let text = strip desc in
      if text = [] then []
      else if (\<forall>c\<in>set text. \<not> is_linebreak c) \<and> CHR 0x5C \<notin> set desc
        then spaces indent @ repr text
      else join [CHR 0x0A]
             ([spaces indent @
                 (if CHR 0x5C \<in> set desc then CHR ''r'' # triple_quote else triple_quote)]
              @ map (\<lambda>ln. spaces indent @ ln) (splitlines text)
              @ [spaces indent @ triple_quote]))"
proof (cases "strip desc = []")
  case True
  then show ?thesis
    by (simp add: format_description_as_docstring_def splitlines_def)
next
  case False
  then have ne: "splitlines (strip desc) \<noteq> []"
    by (simp add: splitlines_def splitlines_from_Nil_iff)
  show ?thesis
  proof (cases "\<forall>c\<in>set (strip desc). \<not> is_linebreak c")
    case True
    then have "splitlines (strip desc) = [strip desc]"
      using False by (simp add: splitlines_def splitlines_from_one_line)
    with False True show ?thesis
      by (simp add: format_description_as_docstring_def Let_def)
  next
    case several: False
    have "\<not> is_linebreak (last (strip desc))"
      using strip_last [OF False] is_linebreak_isspace by blast
    with several False have "\<not> length (splitlines (strip desc)) \<le> 1"
      unfolding splitlines_def using splitlines_from_several by blast
    then have "length (splitlines (strip desc)) \<noteq> 1" by simp
    with several False ne show ?thesis
      unfolding format_description_as_docstring_def Let_def by auto
  qed
qed



theorem docstring_formatter_cases_witness:
  "format_description_as_docstring '' '' 4 = []
   \<and> format_description_as_docstring '' Moves it '' 4 = ''    '' @ [CHR 0x27] @ ''Moves it'' @ [CHR 0x27]
   \<and> format_description_as_docstring [CHR ''a'', CHR 0x0A, CHR ''b''] 8 =
       ''        '' @ triple_quote @ [CHR 0x0A] @ ''        a'' @ [CHR 0x0A] @ ''        b''
       @ [CHR 0x0A] @ ''        '' @ triple_quote
   \<and> format_description_as_docstring [CHR ''a'', CHR 0x5C, CHR ''n''] 4 =
       ''    r'' @ triple_quote @ [CHR 0x0A] @ ''    a'' @ [CHR 0x5C] @ ''n''
       @ [CHR 0x0A] @ ''    '' @ triple_quote"
proof -
  have s1: "strip '' '' = []" by code_simp
  have s2: "strip '' Moves it '' = ''Moves it''" by code_simp
  have l2: "(\<forall>c\<in>set ''Moves it''. \<not> is_linebreak c) = True" by code_simp
  have b2: "(CHR 0x5C \<in> set '' Moves it '') = False" by code_simp
  have r2: "spaces 4 @ repr ''Moves it'' = ''    '' @ [CHR 0x27] @ ''Moves it'' @ [CHR 0x27]"
    by code_simp
  have s3: "strip [CHR ''a'', CHR 0x0A, CHR ''b''] = [CHR ''a'', CHR 0x0A, CHR ''b'']"
    by code_simp
  have l3: "(\<forall>c\<in>set [CHR ''a'', CHR 0x0A, CHR ''b'']. \<not> is_linebreak c) = False"
    by code_simp
  have b3: "(CHR 0x5C \<in> set [CHR ''a'', CHR 0x0A, CHR ''b'']) = False" by code_simp
  have r3: "join [CHR 0x0A] ([spaces 8 @ triple_quote]
              @ map (\<lambda>ln. spaces 8 @ ln) (splitlines [CHR ''a'', CHR 0x0A, CHR ''b''])
              @ [spaces 8 @ triple_quote]) =
       ''        '' @ triple_quote @ [CHR 0x0A] @ ''        a'' @ [CHR 0x0A] @ ''        b''
       @ [CHR 0x0A] @ ''        '' @ triple_quote" by code_simp
  have l4: "(\<forall>c\<in>set [CHR ''a'', CHR 0x5C, CHR ''n'']. \<not> is_linebreak c) = True"
    by code_simp
  have b4: "(CHR 0x5C \<in> set [CHR ''a'', CHR 0x5C, CHR ''n'']) = True" by code_simp
  have n3: "([CHR ''a'', CHR 0x0A, CHR ''b''] = []) = False" by simp
  have n4: "([CHR ''a'', CHR 0x5C, CHR ''n''] = []) = False" by simp
  have n2: "(''Moves it'' = []) = False" by simp
  have s4: "strip [CHR ''a'', CHR 0x5C, CHR ''n''] = [CHR ''a'', CHR 0x5C, CHR ''n'']"
    by code_simp
  have r4: "join [CHR 0x0A] ([spaces 4 @ CHR ''r'' # triple_quote]
              @ map (\<lambda>ln. spaces 4 @ ln) (splitlines [CHR ''a'', CHR 0x5C, CHR ''n''])
              @ [spaces 4 @ triple_quote]) =
       ''    r'' @ triple_quote @ [CHR 0x0A] @ ''    a'' @ [CHR 0x5C] @ ''n''
       @ [CHR 0x0A] @ ''    '' @ triple_quote" by code_simp
  have c1: "format_description_as_docstring '' '' 4 = []"
    using docstring_formatter_cases [of "'' ''" 4] unfolding s1 Let_def by simp
  have "format_description_as_docstring '' Moves it '' 4 = spaces 4 @ repr ''Moves it''"
    using docstring_formatter_cases [of "'' Moves it ''" 4]
    unfolding s2 Let_def l2 b2 n2 by (simp only: simp_thms if_True if_False)
  then have c2: "format_description_as_docstring '' Moves it '' 4 =
      ''    '' @ [CHR 0x27] @ ''Moves it'' @ [CHR 0x27]"
    using r2 by (rule trans)
  have "format_description_as_docstring [CHR ''a'', CHR 0x0A, CHR ''b''] 8 =
      join [CHR 0x0A] ([spaces 8 @ triple_quote]
              @ map (\<lambda>ln. spaces 8 @ ln) (splitlines [CHR ''a'', CHR 0x0A, CHR ''b''])
              @ [spaces 8 @ triple_quote])"
    using docstring_formatter_cases [of "[CHR ''a'', CHR 0x0A, CHR ''b'']" 8]
    unfolding s3 Let_def l3 b3 n3 by (simp only: simp_thms if_True if_False)
  then have c3: "format_description_as_docstring [CHR ''a'', CHR 0x0A, CHR ''b''] 8 =
       ''        '' @ triple_quote @ [CHR 0x0A] @ ''        a'' @ [CHR 0x0A] @ ''        b''
       @ [CHR 0x0A] @ ''        '' @ triple_quote"
    using r3 by (rule trans)
  have "format_description_as_docstring [CHR ''a'', CHR 0x5C, CHR ''n''] 4 =
      join [CHR 0x0A] ([spaces 4 @ CHR ''r'' # triple_quote]
              @ map (\<lambda>ln. spaces 4 @ ln) (splitlines [CHR ''a'', CHR 0x5C, CHR ''n''])
              @ [spaces 4 @ triple_quote])"
    using docstring_formatter_cases [of "[CHR ''a'', CHR 0x5C, CHR ''n'']" 4]
    unfolding s4 Let_def l4 b4 n4 by (simp only: simp_thms if_True if_False)
  then have c4: "format_description_as_docstring [CHR ''a'', CHR 0x5C, CHR ''n''] 4 =
       ''    r'' @ triple_quote @ [CHR 0x0A] @ ''    a'' @ [CHR 0x5C] @ ''n''
       @ [CHR 0x0A] @ ''    '' @ triple_quote"
    using r4 by (rule trans)
  from c1 c2 c3 c4 show ?thesis by blast
qed

section \<open>Properties of the type mapper\<close>

text \<open>
  Claim C3. For every type name the type mapper returns a pair whose first component is
  not empty. The names \<open>string\<close>, \<open>float\<close>, \<open>integer\<close> and \<open>void\<close> give the wrapper
  with a parameter and the empty comment; every other name, \<open>untyped\<close> among them, gives
  the bare wrapper and the name itself as the comment.
\<close>

theorem type_mapper_total:
  "format_as_python_type_extvalue (Some name) =
     (if name = ''string'' then (''ExtValue[str]'', Some [])
      else if name = ''float'' then (''ExtValue[float]'', Some [])
      else if name = ''integer'' then (''ExtValue[int]'', Some [])
      else if name = ''void'' then (''ExtValue[None]'', Some [])
      else (''ExtValue'', Some name))
   \<and> fst (format_as_python_type_extvalue (Some name)) \<noteq> []"
  by (simp add: format_as_python_type_extvalue_def MAP_TO_SIMPLE_PY_TYPE_get_def
      MAP_TO_SIMPLE_PY_TYPE_def str_opt_def)

theorem type_mapper_total_witness:
  "format_as_python_type_extvalue (Some ''untyped'') = (''ExtValue'', Some ''untyped'')
   \<and> format_as_python_type_extvalue (Some ''integer'') = (''ExtValue[int]'', Some [])
   \<and> format_as_python_type_extvalue (Some ''Vector'') = (''ExtValue'', Some ''Vector'')"
  using type_mapper_total [of "''untyped''"] type_mapper_total [of "''integer''"]
    type_mapper_total [of "''Vector''"]
  by simp

section \<open>Properties of the entry point\<close>

text \<open>
  Claim C1, as stated, asks for a non-zero exit status after a validation failure. The
  handler prints and returns: for a document whose only fault is a missing \<open>name\<close> the
  status is 0, and the diagnostic stream holds the traceback only.
\<close>

theorem validation_failure_exit_status_counterexample:
  "exit_code (main_block
     \<lparr>load = ValidationError
        [\<lparr>err_type = ''missing'', err_loc = [''types'', ''0'', ''name''],
          err_msg = ''Field required''\<rparr>],
      ruff = RuffNotFound, show_error = err_msg, exc_message = (\<lambda>e. [])\<rparr>) = 0
   \<and> stderr (main_block
     \<lparr>load = ValidationError
        [\<lparr>err_type = ''missing'', err_loc = [''types'', ''0'', ''name''],
          err_msg = ''Field required''\<rparr>],
      ruff = RuffNotFound, show_error = err_msg, exc_message = (\<lambda>e. [])\<rparr>) = [Traceback]"
  by (simp add: main_block_def)

text \<open>
  Claim C1, amended. After a validation failure the traceback goes to the diagnostic
  stream; standard output receives the separator and then one entry for each error
  record, in order, and nothing of the stub; the exit status is 0.
\<close>

theorem validation_failure_report:
  "main_block (env\<lparr>load := ValidationError errors\<rparr>) =
     \<lparr>stdout = Text (''----'' @ [CHR 0x0A, CHR 0x0A, CHR 0x0A])
                # map (\<lambda>err. Text (show_error env err)) errors,
      stderr = [Traceback],
      exit_code = 0\<rparr>"
  by (simp add: main_block_def)

section \<open>Properties of the emitter\<close>

subsection \<open>What one element prints\<close>

lemma emit_function_eq:
  "emit_function duplicates el (out, r) =
     (case args_loop (get_arguments el) [] {} of
        Inl e \<Rightarrow> ((out, r), Some e)
      | Inr (args, seen) \<Rightarrow>
          (case ret_type_comment_after el r of
             None \<Rightarrow> ((out @ marker_lines duplicates el, None), Some UnboundLocalError)
           | Some comment \<Rightarrow>
               ((out @ marker_lines duplicates el
                   @ [signature_line el args comment,
                      format_description_as_docstring (element_descr el) 8,
                      ''        ...'', []],
                 Some comment), None)))"
  by (auto simp: ret_type_of_def ret_type_comment_after_def signature_line_def marker_lines_def
      print_def Let_def split: sum.splits option.splits prod.splits)

lemma emit_field_eq:
  "emit_field el (out, r) =
     ((out @ [''    '' @ element_id_py el @ '': '' @ fst (format_as_python_type_extvalue (el_type el))
                @ (if truthy (snd (format_as_python_type_extvalue (el_type el)))
                   then ''  # '' @ str_opt (snd (format_as_python_type_extvalue (el_type el)))
                   else [])]
           @ (if element_descr el \<noteq> []
              then [format_description_as_docstring (element_descr el) 4] else []), r), None)"
  by (simp add: print_def Let_def split: prod.splits)

lemma emit_function_frame:
  "emit_function duplicates el (out, r) =
     (case emit_function duplicates el ([], r) of ((seg, r'), e) \<Rightarrow> ((out @ seg, r'), e))"
  unfolding emit_function_eq by (simp split: sum.splits option.splits prod.splits)

lemma emit_field_frame:
  "emit_field el (out, r) =
     (case emit_field el ([], r) of ((seg, r'), e) \<Rightarrow> ((out @ seg, r'), e))"
  unfolding emit_field_eq by simp

lemma emit_element_frame:
  "emit_element duplicates el (out, r) =
     (case emit_element duplicates el ([], r) of ((seg, r'), e) \<Rightarrow> ((out @ seg, r'), e))"
  unfolding emit_element_def
  using emit_function_frame [of duplicates el out r] emit_field_frame [of el out r]
  by (simp del: emit_function.simps emit_field.simps)

lemma emit_elements_frame:
  "emit_elements duplicates els (out, r) =
     (case emit_elements duplicates els ([], r) of ((seg, r'), e) \<Rightarrow> ((out @ seg, r'), e))"
proof (induction els arbitrary: out r)
  case Nil
  show ?case by simp
next
  case (Cons el els)
  obtain seg r1 e where first: "emit_element duplicates el ([], r) = ((seg, r1), e)"
    by (metis prod.exhaust)
  then have first': "emit_element duplicates el (out, r) = ((out @ seg, r1), e)"
    using emit_element_frame [of duplicates el out r] by simp
  show ?case
  proof (cases e)
    case (Some err)
    with first first' show ?thesis by simp
  next
    case None
    obtain seg2 r2 e2 where rest: "emit_elements duplicates els ([], r1) = ((seg2, r2), e2)"
      by (metis prod.exhaust)
    have "emit_elements duplicates els (out @ seg, r1) = (((out @ seg) @ seg2, r2), e2)"
      using Cons.IH [of "out @ seg" r1] rest by simp
    moreover have "emit_elements duplicates els (seg, r1) = ((seg @ seg2, r2), e2)"
      using Cons.IH [of seg r1] rest by simp
    ultimately show ?thesis using None first first' by simp
  qed
qed

lemma emit_elements_layout:
  "emit_elements duplicates els (out, r) = ((out', r'), None) \<Longrightarrow>
   \<exists>segs. list_all2 (element_segment duplicates) els segs \<and> out' = out @ concat segs"
proof (induction els arbitrary: out r)
  case Nil
  then show ?case by simp
next
  case (Cons el els)
  obtain seg r1 e where first: "emit_element duplicates el ([], r) = ((seg, r1), e)"
    by (metis prod.exhaust)
  then have first': "emit_element duplicates el (out, r) = ((out @ seg, r1), e)"
    using emit_element_frame [of duplicates el out r] by simp
  from Cons.prems first' have e: "e = None"
    by (cases e) simp_all
  with Cons.prems first' have "emit_elements duplicates els (out @ seg, r1) = ((out', r'), None)"
    by simp
  from Cons.IH [OF this] obtain segs where
    segs: "list_all2 (element_segment duplicates) els segs" "out' = (out @ seg) @ concat segs"
    by blast
  from first e have "element_segment duplicates el seg"
    unfolding element_segment_def by blast
  with segs have "list_all2 (element_segment duplicates) (el # els) (seg # segs)
    \<and> out' = out @ concat (seg # segs)" by simp
  then show ?case by blast
qed

subsection \<open>The loop over the types\<close>

lemma emit_types_skip:
  "\<not> is_global t \<Longrightarrow> emit_types (t # ts) st = emit_types ts st"
  by (cases st) (simp add: is_global_def GLOBAL_CONTEXT_def)

lemma emit_types_global:
  "is_global t \<Longrightarrow>
   emit_types (t # ts) (out, r) =
     (case ty_description t of
        None \<Rightarrow> ((out @ [class_line t, missing_docstring_line], r), Some AttributeError)
      | Some d \<Rightarrow>
          (case emit_elements (duplicate_elements (ty_elements t)) (ty_elements t)
                  (out @ [class_line t, format_description_as_docstring d 4, []], r) of
             (st', Some e) \<Rightarrow> (st', Some e)
           | ((out2, r2), None) \<Rightarrow> emit_types ts (out2 @ [[]], r2)))"
  by (auto simp: is_global_def GLOBAL_CONTEXT_def print_def class_line_def
      missing_docstring_line_def Let_def split: option.splits prod.splits)

declare emit_types.simps(2) [simp del]

lemma emit_types_filter:
  "emit_types ts st = emit_types (filter is_global ts) st"
proof (induction ts arbitrary: st)
  case Nil
  show ?case by simp
next
  case (Cons t ts)
  show ?case
  proof (cases "is_global t")
    case False
    then show ?thesis using Cons.IH [of st] by (simp add: emit_types_skip)
  next
    case True
    obtain out r where st: "st = (out, r)" by (cases st)
    show ?thesis
      unfolding st using True Cons.IH
      by (simp add: emit_types_global
          split: option.splits prod.splits)
  qed
qed

lemma emit_types_frame:
  "emit_types ts (out, r) =
     (case emit_types ts ([], r) of ((seg, r'), e) \<Rightarrow> ((out @ seg, r'), e))"
proof (induction ts arbitrary: out r)
  case Nil
  show ?case by simp
next
  case (Cons t ts)
  show ?case
  proof (cases "is_global t")
    case False
    then show ?thesis using Cons.IH [of out r] by (simp add: emit_types_skip)
  next
    case True
    show ?thesis
    proof (cases "ty_description t")
      case None
      with True show ?thesis by (simp add: emit_types_global)
    next
      case (Some d)
      let ?dups = "duplicate_elements (ty_elements t)"
      let ?head = "[class_line t, format_description_as_docstring d 4, []]"
      obtain seg r1 e where els: "emit_elements ?dups (ty_elements t) ([], r) = ((seg, r1), e)"
        by (metis prod.exhaust)
      have a: "emit_elements ?dups (ty_elements t) (out @ ?head, r) = (((out @ ?head) @ seg, r1), e)"
        using emit_elements_frame [of ?dups "ty_elements t" "out @ ?head" r] els by simp
      have b: "emit_elements ?dups (ty_elements t) (?head, r) = ((?head @ seg, r1), e)"
        using emit_elements_frame [of ?dups "ty_elements t" ?head r] els by simp
      show ?thesis
      proof (cases e)
        case (Some err)
        with True \<open>ty_description t = Some d\<close> a b show ?thesis
          using emit_types_global [of t ts out r] emit_types_global [of t ts "[]" r]
          by simp
      next
        case None
        obtain seg2 r2 e2 where rest: "emit_types ts ([], r1) = ((seg2, r2), e2)"
          by (metis prod.exhaust)
        have c: "emit_types ts (((out @ ?head) @ seg) @ [[]], r1)
                  = (((((out @ ?head) @ seg) @ [[]]) @ seg2, r2), e2)"
          using Cons.IH [of "((out @ ?head) @ seg) @ [[]]" r1] rest by simp
        have d: "emit_types ts ((?head @ seg) @ [[]], r1) = ((((?head @ seg) @ [[]]) @ seg2, r2), e2)"
          using Cons.IH [of "(?head @ seg) @ [[]]" r1] rest by simp
        from True \<open>ty_description t = Some d\<close> a b c d None show ?thesis
          using emit_types_global [of t ts out r] emit_types_global [of t ts "[]" r]
          by simp
      qed
    qed
  qed
qed

lemma emit_types_layout:
  "emit_types ts (out, r) = ((out', r'), None) \<Longrightarrow>
   \<exists>segs. list_all2 type_segment (filter is_global ts) segs \<and> out' = out @ concat segs"
proof (induction ts arbitrary: out r)
  case Nil
  then show ?case by simp
next
  case (Cons t ts)
  show ?case
  proof (cases "is_global t")
    case False
    with Cons.prems have "emit_types ts (out, r) = ((out', r'), None)"
      by (simp add: emit_types_skip)
    from Cons.IH [OF this] False show ?thesis by simp
  next
    case True
    note step = emit_types_global [OF True, of ts out r]
    from Cons.prems step obtain d where d: "ty_description t = Some d"
      by (cases "ty_description t") simp_all
    let ?dups = "duplicate_elements (ty_elements t)"
    let ?head = "[class_line t, format_description_as_docstring d 4, []]"
    obtain out2 r2 e where
      els: "emit_elements ?dups (ty_elements t) (out @ ?head, r) = ((out2, r2), e)"
      by (metis prod.exhaust)
    from Cons.prems step d els have e: "e = None"
      by (cases e) simp_all
    from emit_elements_layout [OF els [unfolded e]] obtain elsegs where
      elsegs: "list_all2 (element_segment ?dups) (ty_elements t) elsegs"
        "out2 = (out @ ?head) @ concat elsegs"
      by blast
    from Cons.prems step d els e have "emit_types ts (out2 @ [[]], r2) = ((out', r'), None)"
      by simp
    from Cons.IH [OF this] obtain segs where
      segs: "list_all2 type_segment (filter is_global ts) segs" "out' = (out2 @ [[]]) @ concat segs"
      by blast
    let ?seg = "?head @ concat elsegs @ [[]]"
    have "type_segment t ?seg"
      unfolding type_segment_def using d elsegs(1) by blast
    with segs elsegs(2) True
    have "list_all2 type_segment (filter is_global (t # ts)) (?seg # segs)
      \<and> out' = out @ concat (?seg # segs)"
      by simp
    then show ?thesis by blast
  qed
qed

lemma main_write_frame:
  "main_write_framscript_part_of_the_stub doc out =
     (out @ fst (main_write_framscript_part_of_the_stub doc []),
      snd (main_write_framscript_part_of_the_stub doc []))"
proof -
  obtain seg r e where body: "emit_types (types doc) ([], None) = ((seg, r), e)"
    by (metis prod.exhaust)
  have "emit_types (types doc) (out @ header_lines, None) = (((out @ header_lines) @ seg, r), e)"
    using emit_types_frame [of "types doc" "out @ header_lines" None] body by simp
  moreover have "emit_types (types doc) (header_lines, None) = ((header_lines @ seg, r), e)"
    using emit_types_frame [of "types doc" header_lines None] body by simp
  ultimately show ?thesis
    by (simp add: main_write_framscript_part_of_the_stub_def print_def header_lines_def)
qed

text \<open>
  Claim C9. The emitter reads nothing but the document: what it appends to the output
  and the way it ends are the same whatever has been written before, so a second run on
  the same document appends the same entries as the first, and the text of what a run
  appends is the text of a run on the empty output.
\<close>

theorem emission_deterministic:
  "fst (main_write_framscript_part_of_the_stub doc out)
     = out @ fst (main_write_framscript_part_of_the_stub doc [])
   \<and> snd (main_write_framscript_part_of_the_stub doc out)
     = snd (main_write_framscript_part_of_the_stub doc [])
   \<and> main_write_framscript_part_of_the_stub doc
        (fst (main_write_framscript_part_of_the_stub doc []))
     = (fst (main_write_framscript_part_of_the_stub doc [])
          @ fst (main_write_framscript_part_of_the_stub doc []),
        snd (main_write_framscript_part_of_the_stub doc []))
   \<and> render (drop (length out) (fst (main_write_framscript_part_of_the_stub doc out)))
     = render (fst (main_write_framscript_part_of_the_stub doc []))"
  using main_write_frame [of doc out]
    main_write_frame [of doc "fst (main_write_framscript_part_of_the_stub doc [])"]
  by simp

lemma example_doc_ok: "snd (main_write_framscript_part_of_the_stub example_doc []) = None"
  by code_simp

lemma example_doc_global: "filter is_global (types example_doc) = [world_type, empty_type]"
  by code_simp

lemma main_write_layout:
  assumes "main_write_framscript_part_of_the_stub doc out = (out', None)"
  shows "\<exists>segs. list_all2 type_segment (filter is_global (types doc)) segs
           \<and> out' = out @ header_lines @ concat segs"
proof -
  obtain out2 r e where body: "emit_types (types doc) (out @ header_lines, None) = ((out2, r), e)"
    by (metis prod.exhaust)
  with assms have "e = None" "out2 = out'"
    by (simp_all add: main_write_framscript_part_of_the_stub_def print_def header_lines_def)
  with body emit_types_layout [of "types doc" "out @ header_lines" None out' r]
  show ?thesis by simp
qed

text \<open>
  Claim C2. Emitting a document is emitting its types of context \<open>Global context\<close>,
  so a type of any other context adds nothing. When the emitter returns, the output
  after the header is the concatenation of one segment for each of these types, in the
  order of the document, and inside the segment of a type the segments of its elements
  follow the order of its element list.
\<close>

theorem global_types_in_order:
  "main_write_framscript_part_of_the_stub doc out
     = main_write_framscript_part_of_the_stub (doc\<lparr>types := filter is_global (types doc)\<rparr>) out
   \<and> (\<forall>out'. main_write_framscript_part_of_the_stub doc out = (out', None) \<longrightarrow>
         (\<exists>segs. list_all2 type_segment (filter is_global (types doc)) segs
            \<and> out' = out @ header_lines @ concat segs))"
proof -
  have "emit_types (types doc) st = emit_types (filter is_global (types doc)) st" for st
    by (rule emit_types_filter)
  then have "main_write_framscript_part_of_the_stub doc out
     = main_write_framscript_part_of_the_stub (doc\<lparr>types := filter is_global (types doc)\<rparr>) out"
    by (simp add: main_write_framscript_part_of_the_stub_def)
  with main_write_layout show ?thesis by blast
qed

theorem global_types_in_order_witness:
  "main_write_framscript_part_of_the_stub example_doc []
     = main_write_framscript_part_of_the_stub \<lparr>types = [world_type, empty_type]\<rparr> []
   \<and> snd (main_write_framscript_part_of_the_stub example_doc []) = None
   \<and> (\<exists>segs. list_all2 type_segment [world_type, empty_type] segs
         \<and> fst (main_write_framscript_part_of_the_stub example_doc []) = header_lines @ concat segs)"
proof -
  note layout = global_types_in_order [of example_doc "[]", unfolded example_doc_global]
  have eq: "example_doc\<lparr>types := [world_type, empty_type]\<rparr> = \<lparr>types = [world_type, empty_type]\<rparr>"
    by (simp add: example_doc_def)
  have run: "main_write_framscript_part_of_the_stub example_doc []
      = (fst (main_write_framscript_part_of_the_stub example_doc []), None)"
    by (rule prod_eqI) (simp_all add: example_doc_ok)
  have a: "main_write_framscript_part_of_the_stub example_doc []
     = main_write_framscript_part_of_the_stub \<lparr>types = [world_type, empty_type]\<rparr> []"
    using layout [THEN conjunct1] unfolding eq .
  note b = layout [THEN conjunct2, THEN spec, THEN mp, OF run, unfolded append_Nil]
  from conjI [OF a conjI [OF example_doc_ok b]] show ?thesis .
qed

subsection \<open>Function elements\<close>

text \<open>
  Claim C6, as stated, gives a function either its docstring or the placeholder
  statement as its body. The emitter prints both in every case: after the signature of a
  function with a description come the docstring and the placeholder, and after the
  signature of a function without one come an empty line and the placeholder.
\<close>

theorem function_body_counterexample:
  "emit_element {} (mk_element ''move'' (Some ''void'') True (Some ''Moves'') None) ([], None)
     = (([''    @staticmethod'', ''    def move() -> ExtValue[None]:'',
          ''        '' @ [CHR 0x27] @ ''Moves'' @ [CHR 0x27], ''        ...'', []],
         Some (Some [])), None)
   \<and> emit_element {} (mk_element ''stop'' (Some ''void'') True (Some []) None) ([], None)
     = (([''    @staticmethod'', ''    def stop() -> ExtValue[None]:'',
          [], ''        ...'', []],
         Some (Some [])), None)"
  by code_simp

text \<open>
  Claim C6, amended. A function element that is emitted without an exception adds, in
  this order: the deprecation marker if it is deprecated, the overload marker if its id
  is among the duplicates of the type, the static-call marker, the signature line, the
  docstring of its description at indentation 8 (the empty string when there is no
  description), the placeholder statement, and an empty line. So the signature is always
  followed by a body.
\<close>

theorem function_element_lines:
  assumes "is_function el"
    and "emit_element duplicates el (out, r) = ((out', r'), None)"
  shows "\<exists>args seen comment.
           args_loop (get_arguments el) [] {} = Inr (args, seen)
         \<and> ret_type_comment_after el r = Some comment \<and> r' = Some comment
         \<and> out' = out
             @ (if is_deprecated el then [''    @deprecated''] else [])
             @ (if el_id el \<in> duplicates then [''    @overload''] else [])
             @ [''    @staticmethod'', signature_line el args comment,
                format_description_as_docstring (element_descr el) 8,
                ''        ...'', []]"
proof -
  from assms have run: "emit_function duplicates el (out, r) = ((out', r'), None)"
    by (simp add: emit_element_def del: emit_function.simps)
  then obtain args seen where args: "args_loop (get_arguments el) [] {} = Inr (args, seen)"
    unfolding emit_function_eq by (auto split: sum.splits)
  with run obtain comment where comment: "ret_type_comment_after el r = Some comment"
    unfolding emit_function_eq by (auto split: option.splits)
  from run have "r' = Some comment
      \<and> out' = out @ marker_lines duplicates el
          @ [signature_line el args comment,
             format_description_as_docstring (element_descr el) 8, ''        ...'', []]"
    unfolding emit_function_eq args comment by simp
  then have "args_loop (get_arguments el) [] {} = Inr (args, seen)
         \<and> ret_type_comment_after el r = Some comment \<and> r' = Some comment
         \<and> out' = out
             @ (if is_deprecated el then [''    @deprecated''] else [])
             @ (if el_id el \<in> duplicates then [''    @overload''] else [])
             @ [''    @staticmethod'', signature_line el args comment,
                format_description_as_docstring (element_descr el) 8,
                ''        ...'', []]"
    using args comment by (simp add: marker_lines_def)
  then show ?thesis by blast
qed

theorem function_element_lines_witness:
  "is_function (mk_element ''move'' (Some ''Vector'') True (Some ''Moves'') None)
   \<and> (\<exists>args seen comment.
         args_loop (get_arguments (mk_element ''move'' (Some ''Vector'') True (Some ''Moves'') None))
           [] {} = Inr (args, seen)
       \<and> ret_type_comment_after (mk_element ''move'' (Some ''Vector'') True (Some ''Moves'') None)
            None = Some comment
       \<and> fst (fst (emit_element {''move''}
                 (mk_element ''move'' (Some ''Vector'') True (Some ''Moves'') None) ([], None)))
          = [''    @overload'', ''    @staticmethod'',
             signature_line (mk_element ''move'' (Some ''Vector'') True (Some ''Moves'') None)
               args comment,
             format_description_as_docstring
               (element_descr (mk_element ''move'' (Some ''Vector'') True (Some ''Moves'') None)) 8,
             ''        ...'', []])"
proof -
  let ?el = "mk_element ''move'' (Some ''Vector'') True (Some ''Moves'') None"
  have f: "is_function ?el" by code_simp
  have nd: "is_deprecated ?el = False" by code_simp
  have id: "el_id ?el \<in> {''move''}" by code_simp
  have ok: "snd (emit_element {''move''} ?el ([], None)) = None" by code_simp
  have run: "emit_element {''move''} ?el ([], None)
      = ((fst (fst (emit_element {''move''} ?el ([], None))),
          snd (fst (emit_element {''move''} ?el ([], None)))), None)"
    by (rule prod_eqI) (simp_all add: ok)
  from function_element_lines [OF f run] f show ?thesis
    unfolding nd using id by auto
qed

subsection \<open>Types without a description\<close>

text \<open>
  Claim C8 at a type whose description is the empty string, the value the model gives to
  a type without a description element: the emitter prints the class line and three
  empty lines, and no placeholder notice. The notice is printed for a description that
  is \<open>None\<close>, and the call of the docstring formatter that follows raises.
\<close>

theorem empty_description_prints_no_placeholder:
  "main_write_framscript_part_of_the_stub \<lparr>types = [empty_type]\<rparr> []
     = (header_lines @ [''class Empty(ExtValue):'', [], [], []], None)
   \<and> missing_docstring_line
       \<notin> set (fst (main_write_framscript_part_of_the_stub \<lparr>types = [empty_type]\<rparr> []))
   \<and> main_write_framscript_part_of_the_stub
       \<lparr>types = [empty_type\<lparr>ty_description := None\<rparr>]\<rparr> []
     = (header_lines @ [''class Empty(ExtValue):'', missing_docstring_line],
        Some AttributeError)"
  by code_simp

subsection \<open>Arguments with a description\<close>

lemma list_all2_member:
  "list_all2 P xs ys \<Longrightarrow> x \<in> set xs \<Longrightarrow> \<exists>y. P x y"
  by (induction rule: list_all2_induct) auto

lemma args_loop_described:
  "\<exists>a\<in>set func_args. truthy (arg_description a) \<Longrightarrow>
   args_loop func_args args seen = Inl AssertionError"
  by (induction func_args arbitrary: args seen) (auto simp: Let_def)

lemma emit_element_described:
  assumes "is_function el" and "\<exists>a\<in>set (get_arguments el). truthy (arg_description a)"
  shows "emit_element duplicates el st = (st, Some AssertionError)"
proof -
  obtain out r where st: "st = (out, r)" by (cases st)
  from assms(2) have "args_loop (get_arguments el) [] {} = Inl AssertionError"
    by (rule args_loop_described)
  with assms(1) show ?thesis
    unfolding st emit_element_def emit_function_eq by simp
qed

lemma element_segment_not_described:
  assumes "element_segment duplicates el seg" and "is_function el"
  shows "\<forall>a\<in>set (get_arguments el). \<not> truthy (arg_description a)"
proof (rule ccontr)
  assume "\<not> (\<forall>a\<in>set (get_arguments el). \<not> truthy (arg_description a))"
  then have "\<exists>a\<in>set (get_arguments el). truthy (arg_description a)" by blast
  from emit_element_described [OF assms(2) this] assms(1) show False
    unfolding element_segment_def by auto
qed

text \<open>
  A function element with an argument whose description is not empty raises the
  assertion failure as soon as it is reached, before anything of it is printed. Hence
  the emitter returns without an exception only when every argument of every function
  of every global type has an empty description.
\<close>

lemma described_argument_asserts:
  "(is_function el \<and> (\<exists>a\<in>set (get_arguments el). truthy (arg_description a))
      \<longrightarrow> emit_element duplicates el st = (st, Some AssertionError))
   \<and> (main_write_framscript_part_of_the_stub doc out = (out', None)
      \<longrightarrow> (\<forall>t\<in>set (types doc). ty_context t = ''Global context''
            \<longrightarrow> (\<forall>el\<in>set (ty_elements t). is_function el
                  \<longrightarrow> (\<forall>a\<in>set (get_arguments el). \<not> truthy (arg_description a)))))"
proof (intro conjI impI ballI)
  assume "is_function el \<and> (\<exists>a\<in>set (get_arguments el). truthy (arg_description a))"
  then show "emit_element duplicates el st = (st, Some AssertionError)"
    using emit_element_described by blast
next
  fix t e a
  assume run: "main_write_framscript_part_of_the_stub doc out = (out', None)"
    and t: "t \<in> set (types doc)" "ty_context t = ''Global context''"
    and e: "e \<in> set (ty_elements t)" "is_function e"
    and a: "a \<in> set (get_arguments e)"
  from main_write_layout [OF run] obtain segs where
    segs: "list_all2 type_segment (filter is_global (types doc)) segs" by blast
  from t have "t \<in> set (filter is_global (types doc))" by (simp add: is_global_def)
  from list_all2_member [OF segs this] obtain seg where "type_segment t seg" ..
  then obtain elsegs where elsegs:
    "list_all2 (element_segment (duplicate_elements (ty_elements t))) (ty_elements t) elsegs"
    unfolding type_segment_def by blast
  from list_all2_member [OF elsegs e(1)] obtain elseg where
    "element_segment (duplicate_elements (ty_elements t)) e elseg" ..
  from element_segment_not_described [OF this e(2)] a
  show "\<not> truthy (arg_description a)" by blast
qed

lemma described_argument_asserts_example:
  "emit_element {} (mk_element ''move'' (Some ''void'') True (Some [])
       (Some [\<lparr>arg_name = Some ''x'', arg_type = Some ''float'',
               arg_description = Some ''distance''\<rparr>])) ([], None)
     = (([], None), Some AssertionError)
   \<and> snd (main_write_framscript_part_of_the_stub example_doc []) = None
   \<and> \<not> truthy (arg_description
         \<lparr>arg_name = Some ''x'', arg_type = Some ''float'', arg_description = Some []\<rparr>)"
proof -
  let ?arg = "\<lparr>arg_name = Some ''x'', arg_type = Some ''float'',
                arg_description = Some ''distance''\<rparr>"
  let ?el = "mk_element ''move'' (Some ''void'') True (Some []) (Some [?arg])"
  let ?arg2 = "\<lparr>arg_name = Some ''x'', arg_type = Some ''float'', arg_description = Some []\<rparr>"
  let ?el2 = "mk_element ''move'' (Some ''Vector'') True (Some []) (Some [?arg2])"
  note inst = described_argument_asserts [of ?el "{}" "([], None)" example_doc "[]"
      "fst (main_write_framscript_part_of_the_stub example_doc [])"]
  have pre1: "is_function ?el \<and> (\<exists>a\<in>set (get_arguments ?el). truthy (arg_description a))"
    by code_simp
  have first: "emit_element {} ?el ([], None) = (([], None), Some AssertionError)"
    by (rule inst [THEN conjunct1, THEN mp, OF pre1])
  have run: "main_write_framscript_part_of_the_stub example_doc []
      = (fst (main_write_framscript_part_of_the_stub example_doc []), None)"
    by (rule prod_eqI) (simp_all add: example_doc_ok)
  have t: "world_type \<in> set (types example_doc)" by code_simp
  have c: "ty_context world_type = ''Global context''" by code_simp
  have e: "?el2 \<in> set (ty_elements world_type)" by code_simp
  have f: "is_function ?el2" by code_simp
  have a: "?arg2 \<in> set (get_arguments ?el2)" by code_simp
  have "\<not> truthy (arg_description ?arg2)"
    by (rule inst [THEN conjunct2, THEN mp, OF run, THEN bspec, OF t, THEN mp, OF c,
          THEN bspec, OF e, THEN mp, OF f, THEN bspec, OF a])
  from conjI [OF first conjI [OF example_doc_ok this]] show ?thesis .
qed

text \<open>
  Claim C10 at a document where the function with a described argument is not the first
  function of the run. The claim asks for an assertion failure, and that function alone
  raises it. Here it comes after a function without a \<open>type\<close>: the signature line of
  that function reads \<open>ret_type_comment\<close>, which no earlier element has assigned, and
  the emitter ends there with \<open>UnboundLocalError\<close>, after the static-call marker and
  before the described argument is looked at.
\<close>

theorem described_argument_unbound_local:
  "main_write_framscript_part_of_the_stub unbound_doc []
     = (header_lines @ [''class Body(ExtValue):'', [], [], ''    @staticmethod''],
        Some UnboundLocalError)
   \<and> (\<exists>t\<in>set (types unbound_doc). ty_context t = ''Global context''
        \<and> (\<exists>el\<in>set (ty_elements t). is_function el
              \<and> (\<exists>a\<in>set (get_arguments el). truthy (arg_description a))))
   \<and> emit_element {}
        (mk_element ''move'' (Some ''void'') True (Some [])
           (Some [\<lparr>arg_name = Some ''x'', arg_type = Some ''float'',
                   arg_description = Some ''distance''\<rparr>])) ([], None)
     = (([], None), Some AssertionError)"
  by code_simp

subsection \<open>The duplicate ids of a type\<close>

lemma counter_add_keys:
  "set (map fst (counter_add kvs k)) = insert k (set (map fst kvs))"
proof (induction kvs)
  case Nil
  show ?case by simp
next
  case (Cons kv kvs)
  obtain k' v where kv: "kv = (k', v)" by (cases kv)
  show ?case
  proof (cases "k' = k")
    case True
    then show ?thesis unfolding kv by auto
  next
    case False
    then have "set (map fst (counter_add (kv # kvs) k))
        = insert k' (set (map fst (counter_add kvs k)))"
      unfolding kv by simp
    also have "\<dots> = insert k' (insert k (set (map fst kvs)))"
      unfolding Cons.IH ..
    finally show ?thesis unfolding kv by auto
  qed
qed

lemma counter_add_distinct:
  "distinct (map fst kvs) \<Longrightarrow> distinct (map fst (counter_add kvs k))"
proof (induction kvs)
  case Nil
  show ?case by simp
next
  case (Cons kv kvs)
  obtain k' v where kv: "kv = (k', v)" by (cases kv)
  show ?case
  proof (cases "k' = k")
    case True
    with Cons.prems show ?thesis unfolding kv by simp
  next
    case False
    from Cons.prems have "k' \<notin> set (map fst kvs)" "distinct (map fst kvs)"
      unfolding kv by simp_all
    with False Cons.IH have "k' \<notin> set (map fst (counter_add kvs k))"
      "distinct (map fst (counter_add kvs k))"
      unfolding counter_add_keys by simp_all
    with False show ?thesis unfolding kv by simp
  qed
qed

lemma counter_add_lookup:
  "map_of (counter_add kvs k) k' =
     (if k' = k then Some (case map_of kvs k of None \<Rightarrow> 1 | Some v \<Rightarrow> v + 1)
      else map_of kvs k')"
  by (induction kvs) auto

lemma counter_fold:
  "distinct (map fst kvs) \<Longrightarrow>
   distinct (map fst (foldl counter_add kvs xs))
   \<and> map_of (foldl counter_add kvs xs) k =
       (if count_list xs k = 0 then map_of kvs k
        else Some ((case map_of kvs k of None \<Rightarrow> 0 | Some v \<Rightarrow> v) + count_list xs k))"
proof (induction xs arbitrary: kvs)
  case Nil
  then show ?case by simp
next
  case (Cons x xs)
  from Cons.prems have "distinct (map fst (counter_add kvs x))"
    by (rule counter_add_distinct)
  from Cons.IH [OF this] show ?case
    by (auto simp: counter_add_lookup split: option.splits)
qed

lemma duplicate_elements_iff:
  "k \<in> duplicate_elements els \<longleftrightarrow> 1 < count_list (map el_id els) k"
proof -
  let ?items = "Counter (map el_id els)"
  have d: "distinct (map fst ?items)"
    and look: "map_of ?items k =
      (if count_list (map el_id els) k = 0 then None else Some (count_list (map el_id els) k))"
    using counter_fold [of "[]" "map el_id els" k] by (simp_all add: Counter_def)
  have "k \<in> duplicate_elements els \<longleftrightarrow> (\<exists>v. (k, v) \<in> set ?items \<and> 1 < v)"
    by (auto simp: duplicate_elements_def Let_def image_iff)
  also have "\<dots> \<longleftrightarrow> (\<exists>v. map_of ?items k = Some v \<and> 1 < v)"
    using d by simp
  also have "\<dots> \<longleftrightarrow> 1 < count_list (map el_id els) k"
    unfolding look by auto
  finally show ?thesis .
qed

lemma count_list_middle:
  "1 < count_list (a @ x # b) x \<longleftrightarrow> x \<in> set a \<or> x \<in> set b"
proof -
  have "1 < count_list (a @ x # b) x \<longleftrightarrow> \<not> (count_list a x = 0 \<and> count_list b x = 0)"
    by auto
  then show ?thesis by (simp add: count_list_0_iff)
qed

lemma other_index_middle:
  "(\<exists>j<length (a @ x # b). j \<noteq> length a \<and> (a @ x # b) ! j = x) \<longleftrightarrow> x \<in> set a \<or> x \<in> set b"
proof
  assume "\<exists>j<length (a @ x # b). j \<noteq> length a \<and> (a @ x # b) ! j = x"
  then obtain j where j: "j < length (a @ x # b)" "j \<noteq> length a" "(a @ x # b) ! j = x"
    by blast
  show "x \<in> set a \<or> x \<in> set b"
  proof (cases "j < length a")
    case True
    with j(3) have "a ! j = x" by (simp add: nth_append)
    with True show ?thesis by auto
  next
    case False
    with j(2) have gt: "length a < j" by simp
    then have "(a @ x # b) ! j = b ! (j - length a - 1)"
      by (simp add: nth_append nth_Cons')
    moreover from gt j(1) have "j - length a - 1 < length b" by simp
    ultimately show ?thesis using j(3) by (metis nth_mem)
  qed
next
  assume "x \<in> set a \<or> x \<in> set b"
  then show "\<exists>j<length (a @ x # b). j \<noteq> length a \<and> (a @ x # b) ! j = x"
  proof
    assume "x \<in> set a"
    then obtain j where "j < length a" "a ! j = x" by (auto simp: in_set_conv_nth)
    then have "j < length (a @ x # b) \<and> j \<noteq> length a \<and> (a @ x # b) ! j = x"
      by (simp add: nth_append)
    then show ?thesis by blast
  next
    assume "x \<in> set b"
    then obtain k where k: "k < length b" "b ! k = x" by (auto simp: in_set_conv_nth)
    then have "Suc (length a + k) < length (a @ x # b) \<and> Suc (length a + k) \<noteq> length a
      \<and> (a @ x # b) ! Suc (length a + k) = x"
      by (simp add: nth_append)
    then show ?thesis by blast
  qed
qed

lemma shared_id_iff:
  assumes "i < length xs"
  shows "1 < count_list xs (xs ! i) \<longleftrightarrow> (\<exists>j<length xs. j \<noteq> i \<and> xs ! j = xs ! i)"
proof -
  let ?a = "take i xs" and ?b = "drop (Suc i) xs"
  from assms have split: "xs = ?a @ xs ! i # ?b" by (rule id_take_nth_drop)
  from assms have len: "length ?a = i" by simp
  have "1 < count_list (?a @ xs ! i # ?b) (xs ! i) \<longleftrightarrow>
      (\<exists>j<length (?a @ xs ! i # ?b). j \<noteq> length ?a \<and> (?a @ xs ! i # ?b) ! j = xs ! i)"
    unfolding count_list_middle other_index_middle ..
  then show ?thesis
    unfolding len split [symmetric] .
qed

subsection \<open>The overload marker\<close>

lemma join_Cons2: "ys \<noteq> [] \<Longrightarrow> join sep (x # ys) = x @ sep @ join sep ys"
  by (cases ys) simp_all

lemma format_head:
  "format_description_as_docstring d n = []
   \<or> (\<exists>c rest. format_description_as_docstring d n = spaces n @ c # rest
         \<and> c \<in> {CHR 0x27, CHR 0x22, CHR ''r''})"
proof -
  let ?ls = "splitlines (strip d)"
  consider "?ls = []" | "?ls \<noteq> []" "length ?ls = 1 \<and> CHR 0x5C \<notin> set d"
    | "?ls \<noteq> []" "\<not> (length ?ls = 1 \<and> CHR 0x5C \<notin> set d)" by blast
  then show ?thesis
  proof cases
    case 1
    then show ?thesis by (simp add: format_description_as_docstring_def)
  next
    case 2
    then have "format_description_as_docstring d n = spaces n @ repr (?ls ! 0)"
      by (simp add: format_description_as_docstring_def Let_def)
    then show ?thesis by (simp add: repr_def Let_def)
  next
    case 3
    let ?open = "if CHR 0x5C \<in> set d then CHR ''r'' # triple_quote else triple_quote"
    let ?tail = "map (\<lambda>ln. spaces n @ ln) ?ls @ [spaces n @ triple_quote]"
    from 3 have "format_description_as_docstring d n
        = join [CHR 0x0A] ((spaces n @ ?open) # ?tail)"
      unfolding format_description_as_docstring_def Let_def by auto
    also have "\<dots> = (spaces n @ ?open) @ [CHR 0x0A] @ join [CHR 0x0A] ?tail"
      by (rule join_Cons2) simp
    finally show ?thesis by (simp add: triple_quote_def)
  qed
qed

lemma spaces_numerals: "spaces 4 = ''    ''" "spaces 8 = ''        ''"
  by (simp_all add: spaces_def eval_nat_numeral)

lemma format_not_marker:
  "format_description_as_docstring d 4 \<noteq> ''    @overload''"
  "format_description_as_docstring d 8 \<noteq> ''    @overload''"
  using format_head [of d 4] format_head [of d 8]
  by (auto simp: spaces_numerals)

lemma field_line_not_marker:
  "''    '' @ i @ '': '' @ rest \<noteq> ''    @overload''"
proof
  assume "''    '' @ i @ '': '' @ rest = ''    @overload''"
  then have "i @ '': '' @ rest = ''@overload''" by simp
  then have "set (i @ '': '' @ rest) = set ''@overload''" by (rule arg_cong)
  moreover have "CHR '':'' \<in> set (i @ '': '' @ rest)" by simp
  ultimately have "CHR '':'' \<in> set ''@overload''" by blast
  then show False by simp
qed

lemma overload_marker_in_segment:
  assumes "element_segment duplicates el seg"
  shows "''    @overload'' \<in> set seg \<longleftrightarrow> is_function el \<and> el_id el \<in> duplicates"
proof -
  from assms obtain r r' where run: "emit_element duplicates el ([], r) = ((seg, r'), None)"
    unfolding element_segment_def by blast
  show ?thesis
  proof (cases "is_function el")
    case True
    with run have "emit_function duplicates el ([], r) = ((seg, r'), None)"
      by (simp add: emit_element_def del: emit_function.simps)
    then obtain args comment where
      "seg = marker_lines duplicates el
         @ [signature_line el args comment,
            format_description_as_docstring (element_descr el) 8, ''        ...'', []]"
      unfolding emit_function_eq by (auto split: sum.splits option.splits)
    with True show ?thesis
      using format_not_marker(2) [of "element_descr el"]
      by (auto simp: marker_lines_def signature_line_def)
  next
    case False
    define line where "line = ''    '' @ element_id_py el @ '': ''
                 @ (fst (format_as_python_type_extvalue (el_type el))
                 @ (if truthy (snd (format_as_python_type_extvalue (el_type el)))
                    then ''  # '' @ str_opt (snd (format_as_python_type_extvalue (el_type el)))
                    else []))"
    have ne: "line \<noteq> ''    @overload''"
      unfolding line_def by (rule field_line_not_marker)
    from False run have "emit_field el ([], r) = ((seg, r'), None)"
      by (simp add: emit_element_def del: emit_field.simps)
    then have seg: "seg = [line] @ (if element_descr el \<noteq> []
              then [format_description_as_docstring (element_descr el) 4] else [])"
      unfolding emit_field_eq line_def by simp
    show ?thesis
      using False ne format_not_marker(1) [of "element_descr el"]
      unfolding seg by auto
  qed
qed

lemma type_segment_overload:
  assumes "type_segment t seg"
  shows "overload_marked_segment t seg"
proof -
  let ?els = "ty_elements t"
  let ?dups = "duplicate_elements ?els"
  from assms obtain d elsegs where d: "ty_description t = Some d"
    and all: "list_all2 (element_segment ?dups) ?els elsegs"
    and seg: "seg = [class_line t, format_description_as_docstring d 4, []] @ concat elsegs @ [[]]"
    unfolding type_segment_def by blast
  from all have len: "length elsegs = length ?els"
    and nth: "\<And>i. i < length ?els \<Longrightarrow> element_segment ?dups (?els ! i) (elsegs ! i)"
    by (simp_all add: list_all2_conv_all_nth)
  have "(''    @overload'' \<in> set (elsegs ! i)) =
          (is_function (?els ! i)
           \<and> (\<exists>j<length ?els. j \<noteq> i \<and> el_id (?els ! j) = el_id (?els ! i)))"
    if i: "i < length ?els" for i
  proof -
    from i have "(el_id (?els ! i) \<in> ?dups)
        = (\<exists>j<length (map el_id ?els). j \<noteq> i \<and> map el_id ?els ! j = map el_id ?els ! i)"
      using shared_id_iff [of i "map el_id ?els"] by (simp add: duplicate_elements_iff)
    also have "\<dots> = (\<exists>j<length ?els. j \<noteq> i \<and> el_id (?els ! j) = el_id (?els ! i))"
      using i by auto
    finally show ?thesis
      using overload_marker_in_segment [OF nth [OF i]] by simp
  qed
  with d seg len nth show ?thesis
    unfolding overload_marked_segment_def by blast
qed

text \<open>
  Claim C4, as stated, marks every element whose id occurs twice in its type. The two
  fields of this type share the id \<open>size\<close>, and the output holds no overload marker:
  only the branch of the function elements prints one.
\<close>

theorem overload_marker_counterexample:
  "map (\<lambda>t. map el_id (ty_elements t)) (types box_doc) = [[''size'', ''size'']]
   \<and> main_write_framscript_part_of_the_stub box_doc []
     = (header_lines @ [''class Box(ExtValue):'', [], [],
          ''    size: ExtValue[int]'', ''    size: ExtValue[float]'', []], None)
   \<and> ''    @overload'' \<notin> set (fst (main_write_framscript_part_of_the_stub box_doc []))"
  by code_simp

text \<open>
  Claim C4, amended. When the emitter returns, the output after the header is one
  segment for each global type, and inside the segment of a type the segment of an
  element holds the overload marker if and only if the element is a function and at
  least one other element of the same type has the same id. The set of duplicate ids is
  the set computed from the element list of that type alone; a field never gets the
  marker.
\<close>

theorem overload_marker_iff:
  assumes "main_write_framscript_part_of_the_stub doc out = (out', None)"
  shows "\<exists>segs. list_all2 overload_marked_segment (filter is_global (types doc)) segs
           \<and> out' = out @ header_lines @ concat segs"
proof -
  from main_write_layout [OF assms] obtain segs where
    segs: "list_all2 type_segment (filter is_global (types doc)) segs"
    and out': "out' = out @ header_lines @ concat segs"
    by blast
  from segs have "list_all2 overload_marked_segment (filter is_global (types doc)) segs"
    by (rule list_all2_mono) (rule type_segment_overload)
  with out' show ?thesis by blast
qed

theorem overload_marker_iff_witness:
  "snd (main_write_framscript_part_of_the_stub example_doc []) = None
   \<and> (\<exists>segs. list_all2 overload_marked_segment [world_type, empty_type] segs
         \<and> fst (main_write_framscript_part_of_the_stub example_doc [])
             = header_lines @ concat segs)"
proof -
  have run: "main_write_framscript_part_of_the_stub example_doc []
      = (fst (main_write_framscript_part_of_the_stub example_doc []), None)"
    by (rule prod_eqI) (simp_all add: example_doc_ok)
  note marked = overload_marker_iff [OF run, unfolded example_doc_global append_Nil]
  from conjI [OF example_doc_ok marked] show ?thesis .
qed

subsection \<open>Argument names\<close>

lemma legal_arg_name_eq:
  "legal_arg_name arg seen =
     (if arg_base_name arg \<in> seen then arg_base_name arg @ ''_2'' else arg_base_name arg)"
  by (simp add: legal_arg_name_def arg_base_name_def Let_def)

lemma args_loop_step:
  "args_loop (arg # func_args) args seen =
     (if truthy (arg_description arg) then Inl AssertionError
      else args_loop func_args
             (args @ [replace_space (legal_arg_name arg seen) @ '': '' @ arg_type_text arg])
             (insert (legal_arg_name arg seen) seen))"
  by (simp add: Let_def arg_type_text_def)

declare args_loop.simps(2) [simp del]

lemma args_loop_append:
  "args_loop (xs @ ys) args seen =
     (case args_loop xs args seen of
        Inl e \<Rightarrow> Inl e
      | Inr (args', seen') \<Rightarrow> args_loop ys args' seen')"
  by (induction xs arbitrary: args seen) (simp_all add: args_loop_step)

lemma args_loop_grows:
  "args_loop xs args seen = Inr (args', seen') \<Longrightarrow>
   \<exists>new. args' = args @ new \<and> length new = length xs"
proof (induction xs arbitrary: args seen)
  case Nil
  then show ?case by simp
next
  case (Cons x xs)
  let ?entry = "replace_space (legal_arg_name x seen) @ '': '' @ arg_type_text x"
  from Cons.prems have "args_loop xs (args @ [?entry]) (insert (legal_arg_name x seen) seen)
      = Inr (args', seen')"
    by (simp add: args_loop_step split: if_splits)
  from Cons.IH [OF this] obtain new where "args' = (args @ [?entry]) @ new" "length new = length xs"
    by blast
  then have "args' = args @ (?entry # new) \<and> length (?entry # new) = length (x # xs)"
    by simp
  then show ?case by blast
qed

lemma args_loop_seen:
  "args_loop xs args seen = Inr (args', seen') \<Longrightarrow>
   seen \<subseteq> seen' \<and> (\<forall>a\<in>set xs. arg_base_name a \<in> seen')"
proof (induction xs arbitrary: args seen)
  case Nil
  then show ?case by simp
next
  case (Cons x xs)
  let ?entry = "replace_space (legal_arg_name x seen) @ '': '' @ arg_type_text x"
  from Cons.prems have "args_loop xs (args @ [?entry]) (insert (legal_arg_name x seen) seen)
      = Inr (args', seen')"
    by (simp add: args_loop_step split: if_splits)
  from Cons.IH [OF this] have sub: "insert (legal_arg_name x seen) seen \<subseteq> seen'"
    and rest: "\<forall>a\<in>set xs. arg_base_name a \<in> seen'" by simp_all
  from sub have "arg_base_name x \<in> seen'"
    unfolding legal_arg_name_eq by (auto split: if_splits)
  with sub rest show ?case by auto
qed

lemma underscore_not_digit: "\<not> isdigit (CHR ''_'')"
  by (simp add: isdigit_def code_point_def)

lemma replace_space_no_space: "CHR '' '' \<notin> set (replace_space s)"
  by (auto simp: replace_space_def)

text \<open>
  Claim C7. When the loop over an argument list returns, the entry of each argument is
  made from that argument and from the set of names recorded for the arguments before
  it, which is the set the loop returns for that prefix. The name is the underscore for
  an absent name, gets the prefix \<open>a_\<close> when its first character is a digit, and gets
  the suffix \<open>_2\<close> when it is in that set, which is the case whenever an earlier argument
  of the list has the same name; in the entry its spaces are underscores.
\<close>

theorem argument_names_legalized:
  assumes "args_loop (pre @ arg # post) [] {} = Inr (args, seen)"
  shows "\<exists>args_pre seen_pre.
           args_loop pre [] {} = Inr (args_pre, seen_pre)
         \<and> length args = length (pre @ arg # post)
         \<and> args ! length pre
             = replace_space (legal_arg_name arg seen_pre) @ '': '' @ arg_type_text arg
         \<and> legal_arg_name arg seen_pre
             = (if arg_base_name arg \<in> seen_pre then arg_base_name arg @ ''_2''
                else arg_base_name arg)
         \<and> (arg_name arg = None \<longrightarrow> arg_base_name arg = ''_'')
         \<and> (\<forall>c cs. arg_name arg = Some (c # cs) \<longrightarrow>
               arg_base_name arg = (if isdigit c then ''a_'' @ c # cs else c # cs))
         \<and> ((\<exists>a\<in>set pre. arg_base_name a = arg_base_name arg) \<longrightarrow>
               legal_arg_name arg seen_pre = arg_base_name arg @ ''_2'')
         \<and> CHR '' '' \<notin> set (replace_space (legal_arg_name arg seen_pre))"
proof -
  from assms obtain args_pre seen_pre where
    pre: "args_loop pre [] {} = Inr (args_pre, seen_pre)"
    and rest: "args_loop (arg # post) args_pre seen_pre = Inr (args, seen)"
    unfolding args_loop_append by (auto split: sum.splits)
  let ?entry = "replace_space (legal_arg_name arg seen_pre) @ '': '' @ arg_type_text arg"
  from rest have post: "args_loop post (args_pre @ [?entry])
      (insert (legal_arg_name arg seen_pre) seen_pre) = Inr (args, seen)"
    by (simp add: args_loop_step split: if_splits)
  from args_loop_grows [OF pre] have len_pre: "length args_pre = length pre" by auto
  from args_loop_grows [OF post] obtain new where
    new: "args = (args_pre @ [?entry]) @ new" "length new = length post" by blast
  from new len_pre have len: "length args = length (pre @ arg # post)" by simp
  from new len_pre have nth: "args ! length pre = ?entry"
    by (simp add: nth_append)
  have absent: "arg_name arg = None \<longrightarrow> arg_base_name arg = ''_''"
    by (simp add: arg_base_name_def truthy_def Let_def underscore_not_digit)
  have digit: "\<forall>c cs. arg_name arg = Some (c # cs) \<longrightarrow>
      arg_base_name arg = (if isdigit c then ''a_'' @ c # cs else c # cs)"
    by (simp add: arg_base_name_def truthy_def str_opt_def Let_def)
  have again: "(\<exists>a\<in>set pre. arg_base_name a = arg_base_name arg) \<longrightarrow>
      legal_arg_name arg seen_pre = arg_base_name arg @ ''_2''"
    using args_loop_seen [OF pre] unfolding legal_arg_name_eq by auto
  note parts = pre len nth legal_arg_name_eq [of arg seen_pre] absent digit again
    replace_space_no_space [of "legal_arg_name arg seen_pre"]
  show ?thesis
    by (rule exI [of _ args_pre], rule exI [of _ seen_pre], intro conjI) (rule parts)+
qed

theorem argument_names_legalized_witness:
  "args_loop [unnamed_arg, digit_arg, unnamed_arg] [] {}
     = Inr ([''_: str'', ''a_2_x: '' @ [CHR 0x27] @ ''Vector'' @ [CHR 0x27], ''__2: str''],
            {''_'', ''a_2 x'', ''__2''})
   \<and> arg_base_name unnamed_arg = ''_''
   \<and> arg_base_name digit_arg = ''a_2 x''
   \<and> (\<exists>args_pre seen_pre.
         args_loop [unnamed_arg, digit_arg] [] {} = Inr (args_pre, seen_pre)
       \<and> ''__2: str'' = replace_space (legal_arg_name unnamed_arg seen_pre) @ '': ''
             @ arg_type_text unnamed_arg
       \<and> legal_arg_name unnamed_arg seen_pre = arg_base_name unnamed_arg @ ''_2'')"
proof -
  have run: "args_loop ([unnamed_arg, digit_arg] @ unnamed_arg # []) [] {}
     = Inr ([''_: str'', ''a_2_x: '' @ [CHR 0x27] @ ''Vector'' @ [CHR 0x27], ''__2: str''],
            {''_'', ''a_2 x'', ''__2''})"
    by code_simp
  have b1: "arg_base_name unnamed_arg = ''_''" by code_simp
  have b2: "arg_base_name digit_arg = ''a_2 x''" by code_simp
  have earlier: "\<exists>a\<in>set [unnamed_arg, digit_arg]. arg_base_name a = arg_base_name unnamed_arg"
    by simp
  from argument_names_legalized [OF run] obtain args_pre seen_pre where
    pre: "args_loop [unnamed_arg, digit_arg] [] {} = Inr (args_pre, seen_pre)"
    and nth: "[''_: str'', ''a_2_x: '' @ [CHR 0x27] @ ''Vector'' @ [CHR 0x27], ''__2: str'']
                ! length [unnamed_arg, digit_arg]
              = replace_space (legal_arg_name unnamed_arg seen_pre) @ '': ''
                  @ arg_type_text unnamed_arg"
    and again: "(\<exists>a\<in>set [unnamed_arg, digit_arg]. arg_base_name a = arg_base_name unnamed_arg)
                  \<longrightarrow> legal_arg_name unnamed_arg seen_pre = arg_base_name unnamed_arg @ ''_2''"
    by blast
  from nth have entry: "''__2: str'' = replace_space (legal_arg_name unnamed_arg seen_pre) @ '': ''
             @ arg_type_text unnamed_arg"
    by simp
  from again earlier have "legal_arg_name unnamed_arg seen_pre = arg_base_name unnamed_arg @ ''_2''"
    by (rule mp)
  with pre entry have "\<exists>args_pre seen_pre.
         args_loop [unnamed_arg, digit_arg] [] {} = Inr (args_pre, seen_pre)
       \<and> ''__2: str'' = replace_space (legal_arg_name unnamed_arg seen_pre) @ '': ''
             @ arg_type_text unnamed_arg
       \<and> legal_arg_name unnamed_arg seen_pre = arg_base_name unnamed_arg @ ''_2''"
    by blast
  with run b1 b2 show ?thesis by simp
qed

end
